theory Spec2Isabelle
  imports Main "HOL-Library.Word"
begin

section \<open>JavaScript values\<close>

text \<open>
  The values the address validator receives are JSON-like JavaScript values.
  Numbers are integers here: the program only ever compares a \<open>length\<close> with a
  constant and a decoded byte with a network tag.  An object is the list of its own
  properties, each key once (\<open>field\<close> reads the first entry of a key); properties hold
  values, never functions, so a read of \<open>forEach\<close> on an object is never callable and
  \<open>constructor\<close> of an object is never \<open>Array\<close> or \<open>String\<close>.
\<close>

type_synonym byte = "8 word"

datatype jsval =
    JUndefined
  | JNull
  | JBool bool
  | JNum int
  | JStr string
  | JArr "jsval list"
  | JObj "(string \<times> jsval) list"

text \<open>
  What a call can throw.  \<open>TypeError\<close> is the engine's (a property read of
  \<open>undefined\<close> or \<open>null\<close>, a call of something that is not a function);
  \<open>Base58Error\<close> is whatever \<open>Base58.decode\<close> throws; \<open>OutsideModel\<close> marks the
  one place where the outcome depends on JavaScript's string-to-number conversion,
  which this development does not model.
\<close>

datatype error = TypeError | Base58Error | OutsideModel

text \<open>\<open>!v\<close> is \<open>\<not> truthy v\<close>.\<close>

fun truthy :: "jsval \<Rightarrow> bool" where
  "truthy JUndefined = False"
| "truthy JNull = False"
| "truthy (JBool b) = b"
| "truthy (JNum n) = (n \<noteq> 0)"
| "truthy (JStr s) = (s \<noteq> [])"
| "truthy (JArr xs) = True"
| "truthy (JObj kvs) = True"

definition field :: "(string \<times> jsval) list \<Rightarrow> string \<Rightarrow> jsval" where
  "field kvs k = (case map_of kvs k of None \<Rightarrow> JUndefined | Some v \<Rightarrow> v)"

text \<open>
  \<open>obj[k]\<close> for a value that is neither \<open>undefined\<close> nor \<open>null\<close> and a key \<open>k\<close>
  that no prototype defines (the five keys \<open>extractAddressesFromObj\<close> reads): an own
  property of an object, \<open>undefined\<close> on everything else.
\<close>

fun read_prop :: "jsval \<Rightarrow> string \<Rightarrow> jsval" where
  "read_prop (JObj kvs) k = field kvs k"
| "read_prop v k = JUndefined"

text \<open>
  \<open>n > 0\<close> for the value of a \<open>length\<close> property: \<open>undefined\<close> converts to NaN,
  \<open>null\<close> to 0, \<open>true\<close> to 1.  A string, array or object converts through its
  string form, which is not modelled.
\<close>

fun gt0 :: "jsval \<Rightarrow> error + bool" where
  "gt0 JUndefined = Inr False"
| "gt0 JNull = Inr False"
| "gt0 (JBool b) = Inr b"
| "gt0 (JNum n) = Inr (n > 0)"
| "gt0 v = Inl OutsideModel"

text \<open>\<open>v.length > 0\<close>.\<close>

fun length_gt0 :: "jsval \<Rightarrow> error + bool" where
  "length_gt0 JUndefined = Inl TypeError"
| "length_gt0 JNull = Inl TypeError"
| "length_gt0 (JArr xs) = Inr (length xs > 0)"
| "length_gt0 (JStr s) = Inr (length s > 0)"
| "length_gt0 (JObj kvs) = gt0 (field kvs ''length'')"
| "length_gt0 v = Inr False"

text \<open>
  The elements that \<open>if (v && v.length > 0) { v.forEach(...) }\<close> visits: none when the
  guard fails; those of an array; a \<open>TypeError\<close> for anything else that passes the
  guard, since only arrays have a \<open>forEach\<close>.
\<close>

definition visited :: "jsval \<Rightarrow> error + jsval list" where
  "visited v =
     (if \<not> truthy v then Inr []
      else case length_gt0 v of
        Inl e \<Rightarrow> Inl e
      | Inr False \<Rightarrow> Inr []
      | Inr True \<Rightarrow> (case v of JArr xs \<Rightarrow> Inr xs | _ \<Rightarrow> Inl TypeError))"

text \<open>\<open>address[0]\<close>.\<close>

fun index0 :: "jsval \<Rightarrow> error + jsval" where
  "index0 JUndefined = Inl TypeError"
| "index0 JNull = Inl TypeError"
| "index0 (JArr xs) = Inr (case xs of [] \<Rightarrow> JUndefined | x # _ \<Rightarrow> x)"
| "index0 (JStr s) = Inr (case s of [] \<Rightarrow> JUndefined | c # _ \<Rightarrow> JStr [c])"
| "index0 (JObj kvs) = Inr (field kvs ''0'')"
| "index0 v = Inr JUndefined"

section \<open>The network table\<close>

definition validNetworks :: "string list" where
  "validNetworks = [''local'', ''private'', ''toplnet'', ''valhalla'', ''hel'']"

record networkDefault =
  hex :: string
  decimal :: nat
  url :: string

definition networksDefaults :: "(string \<times> networkDefault) list" where
  "networksDefaults =
    [(''local'', \<lparr>hex = ''0x30'', decimal = 48, url = ''http://localhost:9085/''\<rparr>),
     (''private'', \<lparr>hex = ''0x40'', decimal = 64, url = ''http://localhost:9085/''\<rparr>),
     (''toplnet'', \<lparr>hex = ''0x01'', decimal = 1, url = ''https:'' @ CHR 0x5C # ''torus.topl.services''\<rparr>),
     (''valhalla'', \<lparr>hex = ''0x10'', decimal = 16, url = ''https:'' @ CHR 0x5C # ''valhalla.torus.topl.services''\<rparr>),
     (''hel'', \<lparr>hex = ''0x20'', decimal = 32, url = ''https:'' @ CHR 0x5C # ''hel.torus.topl.services''\<rparr>)]"

text \<open>
  \<open>networkPrefix && validNetworks.includes(networkPrefix)\<close>: the prefix itself when it
  is falsy, else whether it is one of the five names.
\<close>

definition isValidNetwork :: "jsval \<Rightarrow> jsval" where
  "isValidNetwork networkPrefix =
     (if truthy networkPrefix then JBool (networkPrefix \<in> set (map JStr validNetworks))
      else networkPrefix)"

text \<open>
  \<open>networksDefaults[networkPrefix].decimal\<close>; \<open>None\<close> when the table has no entry of
  that name, where the source has no number to give.
\<close>

definition getDecimalByNetwork :: "string \<Rightarrow> nat option" where
  "getDecimalByNetwork networkPrefix = map_option decimal (map_of networksDefaults networkPrefix)"

section \<open>Extracting addresses from a parameter object\<close>

text \<open>The loop over \<open>recipients\<close>: \<open>addresses.push(address[0])\<close> for each entry.\<close>

fun push_firsts :: "jsval list \<Rightarrow> jsval list \<Rightarrow> error + jsval list" where
  "push_firsts [] acc = Inr acc"
| "push_firsts (a # as) acc =
     (case index0 a of Inl e \<Rightarrow> Inl e | Inr v \<Rightarrow> push_firsts as (acc @ [v]))"

definition push_if :: "jsval \<Rightarrow> jsval list \<Rightarrow> jsval list" where
  "push_if v acc = (if truthy v then acc @ [v] else acc)"

definition extractAddressesFromObj :: "jsval \<Rightarrow> error + jsval" where
  "extractAddressesFromObj obj =
     (case obj of
        JUndefined \<Rightarrow> Inl TypeError
      | JNull \<Rightarrow> Inl TypeError
      | JStr s \<Rightarrow> Inr (JStr s)
      | _ \<Rightarrow>
          (let acc0 = push_if (read_prop obj ''changeAddress'') [];
               acc1 = push_if (read_prop obj ''consolidationAdddress'') acc0
           in case visited (read_prop obj ''recipients'') of
                Inl e \<Rightarrow> Inl e
              | Inr rs \<Rightarrow>
                 (case push_firsts rs acc1 of
                    Inl e \<Rightarrow> Inl e
                  | Inr acc2 \<Rightarrow>
                     (case visited (read_prop obj ''sender'') of
                        Inl e \<Rightarrow> Inl e
                      | Inr ss \<Rightarrow>
                         (case visited (read_prop obj ''addresses'') of
                            Inl e \<Rightarrow> Inl e
                          | Inr as \<Rightarrow> Inr (JArr (acc2 @ ss @ as)))))))"

text \<open>
  \<open>addresses.constructor === Array ? addresses : extractAddressesFromObj(addresses)\<close>,
  the normalisation step of \<open>validateAddressesByNetwork\<close>.
\<close>

definition normalizeAddresses :: "jsval \<Rightarrow> error + jsval" where
  "normalizeAddresses v = (case v of JArr xs \<Rightarrow> Inr (JArr xs) | _ \<Rightarrow> extractAddressesFromObj v)"

section \<open>Validating addresses\<close>

text \<open>
  \<open>Base58.decode\<close> and the blake2b hash with a 32-byte digest come from libraries;
  they are parameters \<open>b58\<close> (with \<open>None\<close> for a throw) and \<open>blake\<close>.  Each call of
  either is recorded, in order.
\<close>

datatype call = Base58_decode jsval | Blake2b_hash "byte list"

record ValidationResult =
  success :: bool
  errorMsg :: string
  networkPrefix :: jsval
  addresses :: jsval
  invalidAddresses :: "jsval list"

text \<open>
  The body of the \<open>forEach\<close> callback: the library calls it makes, and whether it
  pushes the address to \<open>invalidAddresses\<close>.
\<close>

definition validateAddress ::
  "(jsval \<Rightarrow> byte list option) \<Rightarrow> (byte list \<Rightarrow> byte list) \<Rightarrow> nat \<Rightarrow> jsval
     \<Rightarrow> call list \<times> (error + bool)" where
  "validateAddress b58 blake networkDecimal address =
     (case b58 address of
        None \<Rightarrow> ([Base58_decode address], Inl Base58Error)
      | Some decodedAddress \<Rightarrow>
          if length decodedAddress \<noteq> 38 \<or> unat (decodedAddress ! 0) \<noteq> networkDecimal
          then ([Base58_decode address], Inr True)
          else
            (let checksumBuffer = drop 34 decodedAddress;
                 msgBuffer = take 34 decodedAddress;
                 hashChecksumBuffer = take 4 (blake msgBuffer)
             in ([Base58_decode address, Blake2b_hash msgBuffer],
                 Inr (checksumBuffer \<noteq> hashChecksumBuffer))))"

fun forEach_validate ::
  "(jsval \<Rightarrow> byte list option) \<Rightarrow> (byte list \<Rightarrow> byte list) \<Rightarrow> nat \<Rightarrow> jsval list
     \<Rightarrow> call list \<Rightarrow> jsval list \<Rightarrow> call list \<times> (error + jsval list)" where
  "forEach_validate b58 blake networkDecimal [] calls invalid = (calls, Inr invalid)"
| "forEach_validate b58 blake networkDecimal (a # as) calls invalid =
     (case validateAddress b58 blake networkDecimal a of
        (cs, Inl e) \<Rightarrow> (calls @ cs, Inl e)
      | (cs, Inr bad) \<Rightarrow>
          forEach_validate b58 blake networkDecimal as (calls @ cs)
            (if bad then invalid @ [a] else invalid))"

text \<open>\<open>result.addresses.length < 1\<close> for what the normalisation returns.\<close>

fun length_lt1 :: "jsval \<Rightarrow> bool" where
  "length_lt1 (JArr xs) = (length xs < 1)"
| "length_lt1 (JStr s) = (length s < 1)"
| "length_lt1 v = False"

text \<open>
  \<open>validateAddressesByNetwork(networkPrefix, addresses)\<close>.  The object \<open>result\<close> that
  the source updates in place is threaded through as \<open>result\<close>, \<open>result1\<close>,
  \<open>result2\<close>.  The value is the list of library calls made and either what was thrown
  or the result returned.  A prefix that passes \<open>isValidNetwork\<close> is one of the five
  strings (\<open>isValidNetwork_iff\<close>, \<open>getDecimalByNetwork_valid\<close> below), so the two
  branches for a prefix that is no string and for a name without a table entry are never
  taken.  The \<open>console.log\<close> of the decoded address is left out.
\<close>

definition validateAddressesByNetwork ::
  "(jsval \<Rightarrow> byte list option) \<Rightarrow> (byte list \<Rightarrow> byte list) \<Rightarrow> jsval \<Rightarrow> jsval
     \<Rightarrow> call list \<times> (error + ValidationResult)" where
  "validateAddressesByNetwork b58 blake prefix addrs =
     (let result = \<lparr>success = False, errorMsg = [], networkPrefix = prefix,
                     addresses = JArr [], invalidAddresses = []\<rparr>
      in if \<not> truthy (isValidNetwork prefix)
         then ([], Inr (result\<lparr>errorMsg := ''Invalid network provided''\<rparr>))
         else if \<not> truthy addrs
         then ([], Inr (result\<lparr>errorMsg := ''No addresses provided''\<rparr>))
         else
          (case prefix of
             JStr p \<Rightarrow>
              (case getDecimalByNetwork p of
                 None \<Rightarrow> ([], Inl TypeError)
               | Some networkDecimal \<Rightarrow>
                  (case normalizeAddresses addrs of
                     Inl e \<Rightarrow> ([], Inl e)
                   | Inr found \<Rightarrow>
                      (let result1 = result\<lparr>addresses := found\<rparr>
                       in if \<not> truthy found \<or> length_lt1 found
                          then ([], Inr (result1\<lparr>errorMsg := ''No addresses found''\<rparr>))
                          else
                           (case found of
                              JArr xs \<Rightarrow>
                               (case forEach_validate b58 blake networkDecimal xs [] [] of
                                  (calls, Inl e) \<Rightarrow> (calls, Inl e)
                                | (calls, Inr invalid) \<Rightarrow>
                                   (let result2 = result1\<lparr>invalidAddresses := invalid\<rparr>
                                    in if length invalid > 0
                                       then (calls, Inr (result2\<lparr>errorMsg :=
                                               ''Invalid addresses for network: '' @ p\<rparr>))
                                       else (calls, Inr (result2\<lparr>success := True\<rparr>))))
                            | _ \<Rightarrow> ([], Inl TypeError)))))
           | _ \<Rightarrow> ([], Inl OutsideModel)))"

section \<open>KeyManager\<close>

text \<open>
  The KeyManager module itself (\<open>src/modules/KeyManager\<close>) is not among the sources:
  only its tests are (\<open>test/it/keymanager_tests.js\<close>).  The definitions of this
  section are therefore written from the specification, and the tests agree with them.
  Key derivation, the public identifier and the signature primitive are parameters;
  every use of key derivation or signing is recorded.
\<close>

text \<open>
  Modelled from the spec: the error kinds of the missing KeyManager module.
  "\<open>InvalidPassword\<close> (bad/missing password at construction or re-validation),
  \<open>InvalidAccess\<close>, \<open>AlreadyUnlocked\<close>, \<open>LockedError\<close> (any guarded operation
  attempted while locked, or with structurally invalid arguments)."
\<close>

datatype km_error = InvalidPassword | InvalidAccess | AlreadyUnlocked | LockedError

text \<open>
  Modelled from the spec: the cryptographic work of the missing KeyManager module, namely
  deriving the key pair from a password and signing a message.
\<close>

datatype crypto_op = DeriveKeyPair string | SignMessage string

text \<open>
  Modelled from the spec: the state of the missing KeyManager class.  "\<open>password\<close>,
  \<open>keyPair\<close>, \<open>publicKeyId\<close>, \<open>lockState\<close>: boolean, locked or unlocked", the last
  observable as \<open>isLocked\<close>.
\<close>

record KeyManager =
  password :: string
  keyPair :: "byte list \<times> byte list"
  publicKeyId :: string
  isLocked :: bool

text \<open>
  Modelled from the spec: the password check of the missing KeyManager constructor.
  "Accepts exactly one argument that must be either a non-empty string password or a
  configuration object with a string-valued \<open>password\<close> field."
\<close>

fun password_of :: "jsval \<Rightarrow> string option" where
  "password_of (JStr s) = (if s = [] then None else Some s)"
| "password_of (JObj kvs) = (case field kvs ''password'' of JStr s \<Rightarrow> Some s | _ \<Rightarrow> None)"
| "password_of v = None"

text \<open>
  Modelled from the spec: the missing KeyManager constructor.  "Any other shape fails
  construction with an \<open>InvalidPassword\<close> error -- this must happen before any
  cryptographic work.  On success, it derives the key pair synchronously and
  initializes \<open>lockState = unlocked\<close>."
\<close>

definition new_KeyManager ::
  "(string \<Rightarrow> byte list \<times> byte list) \<Rightarrow> (byte list \<Rightarrow> string) \<Rightarrow> jsval
     \<Rightarrow> crypto_op list \<times> (km_error + KeyManager)" where
  "new_KeyManager derive ident params =
     (case password_of params of
        None \<Rightarrow> ([], Inl InvalidPassword)
      | Some pw \<Rightarrow>
          (let kp = derive pw
           in ([DeriveKeyPair pw],
               Inr \<lparr>password = pw, keyPair = kp, publicKeyId = ident (snd kp),
                    isLocked = False\<rparr>)))"

text \<open>
  Modelled from the spec: the missing method \<open>lockKey\<close>.  "Transition to \<open>Locked\<close>
  unconditionally."
\<close>

definition lockKey :: "KeyManager \<Rightarrow> KeyManager" where
  "lockKey km = km\<lparr>isLocked := True\<rparr>"

text \<open>
  Modelled from the spec: the missing method \<open>unlockKey\<close>; the result is the outcome
  and the KeyManager afterwards.  "Only valid from \<open>Locked\<close>.  Verifies the supplied
  password against the password used at construction.  On match, transitions to
  \<open>Unlocked\<close>.  On mismatch, stays \<open>Locked\<close> and fails with \<open>InvalidPassword\<close>.
  Calling \<open>unlockKey\<close> while already \<open>Unlocked\<close> fails with \<open>AlreadyUnlocked\<close>."
\<close>

definition unlockKey :: "KeyManager \<Rightarrow> jsval \<Rightarrow> (km_error + unit) \<times> KeyManager" where
  "unlockKey km pw =
     (if \<not> isLocked km then (Inl AlreadyUnlocked, km)
      else if pw = JStr (password km) then (Inr (), km\<lparr>isLocked := False\<rparr>)
      else (Inl InvalidPassword, km))"

text \<open>
  Modelled from the spec: the missing method \<open>sign\<close>.  "Requires \<open>Unlocked\<close> AND
  \<open>message\<close> is a non-empty string; any other message shape (empty string,
  non-string) raises the same \<open>LockedError\<close>-class failure."  The state check and the
  argument check are separate guards.
\<close>

definition sign ::
  "(byte list \<times> byte list \<Rightarrow> string \<Rightarrow> byte list) \<Rightarrow> KeyManager \<Rightarrow> jsval
     \<Rightarrow> crypto_op list \<times> (km_error + byte list)" where
  "sign signature km message =
     (if isLocked km then ([], Inl LockedError)
      else case message of
        JStr m \<Rightarrow>
          if m = [] then ([], Inl LockedError)
          else ([SignMessage m], Inr (signature (keyPair km) m))
      | _ \<Rightarrow> ([], Inl LockedError))"

section \<open>Sample library functions\<close>

text \<open>
  A decoder and a hash to run the definitions on concrete inputs: the decoder reads a
  string as its character codes and throws on \<open>!\<close> and on anything that is not a
  string; the hash reverses its input.  With them,
  \<open>0aaaaaaaaaaaaaaaaaaaaaaaaaaaaawxyzzyxw\<close> is a well-formed address of network
  \<open>local\<close> (tag 48, the code of \<open>0\<close>).
\<close>

definition sample_decode :: "jsval \<Rightarrow> byte list option" where
  "sample_decode v =
     (case v of
        JStr s \<Rightarrow> if CHR ''!'' \<in> set s then None else Some (map (\<lambda>c. of_nat (of_char c)) s)
      | _ \<Rightarrow> None)"

definition sample_hash :: "byte list \<Rightarrow> byte list" where
  "sample_hash m = rev m"

definition sample_address :: jsval where
  "sample_address = JStr ''0aaaaaaaaaaaaaaaaaaaaaaaaaaaaawxyzzyxw''"

section \<open>Facts about the validator\<close>

lemma isValidNetwork_iff:
  "truthy (isValidNetwork prefix) \<longleftrightarrow> (\<exists>p. prefix = JStr p \<and> p \<in> set validNetworks)"
  by (cases prefix) (auto simp: isValidNetwork_def validNetworks_def)

lemma getDecimalByNetwork_valid:
  "p \<in> set validNetworks \<Longrightarrow> \<exists>d. getDecimalByNetwork p = Some d"
  by (auto simp: validNetworks_def getDecimalByNetwork_def networksDefaults_def)

lemma validateAddress_Some:
  "b58 a = Some d \<Longrightarrow>
     snd (validateAddress b58 blake dec a) =
       Inr (length d \<noteq> 38 \<or> unat (d ! 0) \<noteq> dec \<or> drop 34 d \<noteq> take 4 (blake (take 34 d)))"
  by (auto simp: validateAddress_def Let_def)

lemma forEach_validate_ok:
  "\<forall>a\<in>set xs. b58 a \<noteq> None \<Longrightarrow>
     snd (forEach_validate b58 blake dec xs calls bad) =
       Inr (bad @ filter (\<lambda>a. snd (validateAddress b58 blake dec a) = Inr True) xs)"
proof (induction xs arbitrary: calls bad)
  case Nil
  then show ?case by simp
next
  case (Cons a xs)
  from Cons.prems obtain d where d: "b58 a = Some d" by auto
  obtain cs where v: "validateAddress b58 blake dec a = (cs, Inr (length d \<noteq> 38 \<or> unat (d ! 0) \<noteq> dec \<or> drop 34 d \<noteq> take 4 (blake (take 34 d))))"
    using validateAddress_Some [of b58 a d blake dec, OF d] by (cases "validateAddress b58 blake dec a") auto
  show ?case using Cons.prems Cons.IH v by auto
qed

lemma drop_as_nths: "drop n xs = map ((!) xs) [n..<length xs]"
  by (simp add: list_eq_iff_nth_eq)

lemma take_as_nths: "n \<le> length xs \<Longrightarrow> take n xs = map ((!) xs) [0..<n]"
  by (simp add: list_eq_iff_nth_eq)

lemma bytes_slices:
  "length d = 38 \<Longrightarrow> drop 34 d = map ((!) d) [34..<38] \<and> take 34 d = map ((!) d) [0..<34]"
  using drop_as_nths [of 34 d] take_as_nths [of 34 d] by simp

lemma normalize_falsy:
  "\<not> truthy v \<Longrightarrow> normalizeAddresses v = Inr (JArr xs) \<Longrightarrow> xs = []"
  by (cases v) (auto simp: normalizeAddresses_def extractAddressesFromObj_def push_if_def visited_def)

lemma validate_run:
  assumes p: "p \<in> set validNetworks"
    and n: "normalizeAddresses addrs = Inr (JArr xs)"
    and xs: "xs \<noteq> []"
  shows "\<exists>dec. getDecimalByNetwork p = Some dec \<and>
     validateAddressesByNetwork b58 blake (JStr p) addrs =
       (case forEach_validate b58 blake dec xs [] [] of
          (calls, Inl e) \<Rightarrow> (calls, Inl e)
        | (calls, Inr invalid) \<Rightarrow>
            (calls, Inr \<lparr>success = (invalid = []),
                          errorMsg = (if invalid = [] then [] else ''Invalid addresses for network: '' @ p),
                          networkPrefix = JStr p, addresses = JArr xs,
                          invalidAddresses = invalid\<rparr>))"
proof -
  obtain dec where dec: "getDecimalByNetwork p = Some dec"
    using getDecimalByNetwork_valid [OF p] by blast
  have v: "truthy (isValidNetwork (JStr p))"
    using p isValidNetwork_iff by blast
  have t: "truthy addrs"
    using normalize_falsy [OF _ n] xs by blast
  show ?thesis
    using dec v t n xs
    by (auto simp: validateAddressesByNetwork_def Let_def split: prod.splits sum.splits)
qed

lemma validate_empty:
  assumes p: "p \<in> set validNetworks"
    and n: "normalizeAddresses addrs = Inr (JArr [])"
  shows "\<exists>msg. validateAddressesByNetwork b58 blake (JStr p) addrs =
     ([], Inr \<lparr>success = False, errorMsg = msg, networkPrefix = JStr p, addresses = JArr [],
                invalidAddresses = []\<rparr>)"
proof -
  obtain dec where dec: "getDecimalByNetwork p = Some dec"
    using getDecimalByNetwork_valid [OF p] by blast
  have v: "truthy (isValidNetwork (JStr p))"
    using p isValidNetwork_iff by blast
  show ?thesis
    using dec v n by (simp add: validateAddressesByNetwork_def Let_def)
qed

lemma invalid_filter:
  assumes "\<forall>a\<in>set xs. b58 a \<noteq> None"
  shows "filter (\<lambda>a. snd (validateAddress b58 blake tag a) = Inr True) xs =
     filter (\<lambda>a. \<exists>d. b58 a = Some d \<and>
                 (length d \<noteq> 38 \<or> unat (d ! 0) \<noteq> tag \<or>
                  map ((!) d) [34..<38] \<noteq> take 4 (blake (map ((!) d) [0..<34])))) xs"
proof (rule filter_cong [OF refl])
  fix a assume "a \<in> set xs"
  with assms obtain d where d: "b58 a = Some d" by auto
  show "(snd (validateAddress b58 blake tag a) = Inr True) =
        (\<exists>d. b58 a = Some d \<and>
                 (length d \<noteq> 38 \<or> unat (d ! 0) \<noteq> tag \<or>
                  map ((!) d) [34..<38] \<noteq> take 4 (blake (map ((!) d) [0..<34]))))"
  proof (cases "length d = 38")
    case True
    from bytes_slices [OF True] have
      "drop 34 d = map ((!) d) [34..<38]" "take 34 d = map ((!) d) [0..<34]" by blast+
    then show ?thesis
      using validateAddress_Some [of b58 a d blake tag, OF d] d True by simp
  next
    case False
    then show ?thesis
      using validateAddress_Some [of b58 a d blake tag, OF d] d by simp
  qed
qed

text \<open>
  The outcome \<open>OutsideModel\<close> is confined: it arises only from an object argument,
  one of whose list fields is itself an object with a \<open>length\<close> that is a string,
  an array or an object.  The library calls add \<open>Base58Error\<close> only.
\<close>

lemma validateAddress_error:
  "snd (validateAddress b58 blake tag a) = Inl e \<Longrightarrow> e = Base58Error"
  by (auto simp: validateAddress_def Let_def split: option.splits if_splits)

lemma forEach_validate_error:
  "snd (forEach_validate b58 blake tag xs calls bad) = Inl e \<Longrightarrow> e = Base58Error"
proof (induction xs arbitrary: calls bad)
  case Nil
  then show ?case by simp
next
  case (Cons a xs)
  then show ?case
    using validateAddress_error [of b58 blake tag a]
    by (cases "validateAddress b58 blake tag a") (auto split: sum.splits)
qed

lemma forEach_validate_no_outside:
  "forEach_validate b58 blake tag xs calls bad \<noteq> (cs, Inl OutsideModel)"
  using forEach_validate_error [of b58 blake tag xs calls bad OutsideModel] by auto

lemma outside_model_confined:
  assumes "snd (validateAddressesByNetwork b58 blake prefix addrs) = Inl OutsideModel"
  shows "normalizeAddresses addrs = Inl OutsideModel"
proof (cases "truthy (isValidNetwork prefix)")
  case False
  with assms show ?thesis by (simp add: validateAddressesByNetwork_def)
next
  case True
  then obtain p where p: "prefix = JStr p" "p \<in> set validNetworks"
    using isValidNetwork_iff by blast
  obtain tag where tag: "getDecimalByNetwork p = Some tag"
    using getDecimalByNetwork_valid [OF p(2)] by blast
  show ?thesis
    using assms True p(1) tag
    by (auto simp: validateAddressesByNetwork_def Let_def forEach_validate_no_outside
        split: if_splits sum.splits jsval.splits prod.splits)
qed

lemma outside_model_only_objects:
  assumes "normalizeAddresses addrs = Inl OutsideModel"
  shows "\<exists>kvs. addrs = JObj kvs"
  using assms
  by (cases addrs)
    (auto simp: normalizeAddresses_def extractAddressesFromObj_def visited_def push_if_def Let_def
      split: sum.splits if_splits bool.splits)

lemma sample_address_decodes:
  "sample_decode sample_address =
     Some (map (\<lambda>c. of_nat (of_char c)) ''0aaaaaaaaaaaaaaaaaaaaaaaaaaaaawxyzzyxw'')"
  by (simp add: sample_decode_def sample_address_def)

lemma forEach_validate_returns:
  assumes "\<forall>a\<in>set xs. b58 a \<noteq> None"
  shows "\<exists>calls. forEach_validate b58 blake tag xs [] [] =
     (calls, Inr (filter (\<lambda>a. snd (validateAddress b58 blake tag a) = Inr True) xs))"
  using forEach_validate_ok [OF assms, of blake tag "[]" "[]"]
  by (cases "forEach_validate b58 blake tag xs [] []") auto

lemma validate_run_tag:
  assumes p: "p \<in> set validNetworks"
    and tag: "getDecimalByNetwork p = Some tag"
    and n: "normalizeAddresses addrs = Inr (JArr xs)"
    and xs: "xs \<noteq> []"
  shows "validateAddressesByNetwork b58 blake (JStr p) addrs =
       (case forEach_validate b58 blake tag xs [] [] of
          (calls, Inl e) \<Rightarrow> (calls, Inl e)
        | (calls, Inr invalid) \<Rightarrow>
            (calls, Inr \<lparr>success = (invalid = []),
                          errorMsg = (if invalid = [] then [] else ''Invalid addresses for network: '' @ p),
                          networkPrefix = JStr p, addresses = JArr xs,
                          invalidAddresses = invalid\<rparr>))"
  using validate_run [OF p n xs, of b58 blake] tag by auto

lemma validate_array_decoded:
  assumes p: "p \<in> set validNetworks"
    and tag: "getDecimalByNetwork p = Some tag"
    and xs: "xs \<noteq> []"
    and dec: "\<forall>a\<in>set xs. b58 a \<noteq> None"
  shows "\<exists>calls. validateAddressesByNetwork b58 blake (JStr p) (JArr xs) =
     (calls, Inr \<lparr>success = (filter (\<lambda>a. snd (validateAddress b58 blake tag a) = Inr True) xs = []),
        errorMsg = (if filter (\<lambda>a. snd (validateAddress b58 blake tag a) = Inr True) xs = [] then []
                    else ''Invalid addresses for network: '' @ p),
        networkPrefix = JStr p, addresses = JArr xs,
        invalidAddresses = filter (\<lambda>a. snd (validateAddress b58 blake tag a) = Inr True) xs\<rparr>)"
proof -
  have n: "normalizeAddresses (JArr xs) = Inr (JArr xs)"
    by (simp add: normalizeAddresses_def)
  from forEach_validate_returns [OF dec, of blake tag]
  obtain calls where "forEach_validate b58 blake tag xs [] [] =
     (calls, Inr (filter (\<lambda>a. snd (validateAddress b58 blake tag a) = Inr True) xs))"
    by blast
  with validate_run_tag [OF p tag n xs, of b58 blake] show ?thesis by simp
qed

lemma corrupt_checksum_invalid:
  assumes len: "length d = 38"
    and sum: "drop 34 d = take 4 (blake (take 34 d))"
    and i: "34 \<le> i" "i < 38"
    and v: "v \<noteq> d ! i"
    and d': "b58 a' = Some (d[i := v])"
  shows "snd (validateAddress b58 blake tag a') = Inr True"
proof -
  have same: "take 34 (d[i := v]) = take 34 d"
    using i by simp
  have "drop 34 (d[i := v]) ! (i - 34) = v"
    using i len by simp
  moreover have "drop 34 d ! (i - 34) = d ! i"
    using i len by simp
  ultimately have "drop 34 (d[i := v]) \<noteq> drop 34 d"
    using v by metis
  then show ?thesis
    using validateAddress_Some [of b58 a' "d[i := v]" blake tag, OF d'] same sum by simp
qed

lemma local_valid: "''local'' \<in> set validNetworks"
  by (simp add: validNetworks_def)

lemma local_tag: "getDecimalByNetwork ''local'' = Some 48"
  by (simp add: getDecimalByNetwork_def networksDefaults_def)

lemma sample_address_valid:
  "snd (validateAddress sample_decode sample_hash 48 sample_address) = Inr False"
  by (simp add: validateAddress_def sample_address_decodes sample_hash_def)

lemma sample_run:
  "\<exists>calls. validateAddressesByNetwork sample_decode sample_hash (JStr ''local'')
       (JArr [sample_address]) =
     (calls, Inr \<lparr>success = True, errorMsg = [], networkPrefix = JStr ''local'',
                  addresses = JArr [sample_address], invalidAddresses = []\<rparr>)"
proof -
  have "\<forall>a\<in>set [sample_address]. sample_decode a \<noteq> None"
    by (simp add: sample_address_decodes)
  from validate_array_decoded [OF local_valid local_tag _ this, of sample_hash]
  show ?thesis by (simp add: sample_address_valid)
qed

lemma push_firsts_arrays:
  "push_firsts (map JArr rcs) acc =
     Inr (acc @ map (\<lambda>r. case r of [] \<Rightarrow> JUndefined | x # _ \<Rightarrow> x) rcs)"
  by (induction rcs arbitrary: acc) auto

lemma visited_array: "visited (JArr xs) = Inr xs"
  by (cases xs) (auto simp: visited_def)

lemma visited_undefined: "visited JUndefined = Inr []"
  by (simp add: visited_def)

lemma extract_object:
  assumes "field kvs ''recipients'' = JArr (map JArr rcs) \<or>
           field kvs ''recipients'' = JUndefined \<and> rcs = []"
    and "field kvs ''sender'' = JArr ss \<or> field kvs ''sender'' = JUndefined \<and> ss = []"
    and "field kvs ''addresses'' = JArr as \<or> field kvs ''addresses'' = JUndefined \<and> as = []"
  shows "extractAddressesFromObj (JObj kvs) =
     Inr (JArr ((if truthy (field kvs ''changeAddress'') then [field kvs ''changeAddress''] else []) @
                (if truthy (field kvs ''consolidationAdddress'')
                 then [field kvs ''consolidationAdddress''] else []) @
                map (\<lambda>r. case r of [] \<Rightarrow> JUndefined | x # _ \<Rightarrow> x) rcs @ ss @ as))"
proof -
  have r: "visited (field kvs ''recipients'') = Inr (map JArr rcs)"
    using assms(1) by (auto simp: visited_array visited_undefined)
  have s: "visited (field kvs ''sender'') = Inr ss"
    using assms(2) by (auto simp: visited_array visited_undefined)
  have a: "visited (field kvs ''addresses'') = Inr as"
    using assms(3) by (auto simp: visited_array visited_undefined)
  show ?thesis
    by (simp add: extractAddressesFromObj_def r s a push_firsts_arrays push_if_def Let_def)
qed

lemma validate_records_addresses:
  assumes p: "p \<in> set validNetworks"
    and n: "normalizeAddresses addrs = Inr (JArr xs)"
    and dec: "\<forall>a\<in>set xs. b58 a \<noteq> None"
  shows "\<exists>calls r. validateAddressesByNetwork b58 blake (JStr p) addrs = (calls, Inr r) \<and>
           addresses r = JArr xs"
proof (cases "xs = []")
  case True
  with validate_empty [OF p, of addrs b58 blake] n show ?thesis by auto
next
  case False
  obtain tag where tag: "getDecimalByNetwork p = Some tag"
    using getDecimalByNetwork_valid [OF p] by blast
  from forEach_validate_returns [OF dec, of blake tag] validate_run_tag [OF p tag n False, of b58 blake]
  show ?thesis by auto
qed

text \<open>
  When \<open>Base58.decode\<close> decodes every address of the normalised list \<open>xs\<close>, the call
  with a valid network prefix returns a result whose \<open>addresses\<close> is the whole list
  \<open>xs\<close>, and whose \<open>invalidAddresses\<close> is, in order, exactly the addresses whose
  decoding \<open>d\<close> has a length other than 38, or a byte 0 other than the network's tag, or
  bytes 34 to 37 other than the first four bytes of the hash of bytes 0 to 33.
\<close>

lemma validate_classifies_decoded:
  assumes net: "truthy (isValidNetwork prefix)"
    and norm: "normalizeAddresses addrs = Inr (JArr xs)"
    and dec: "\<forall>a\<in>set xs. b58 a \<noteq> None"
  shows "\<exists>p tag calls r.
     prefix = JStr p \<and> getDecimalByNetwork p = Some tag \<and>
     validateAddressesByNetwork b58 blake prefix addrs = (calls, Inr r) \<and>
     addresses r = JArr xs \<and>
     invalidAddresses r =
       filter (\<lambda>a. \<exists>d. b58 a = Some d \<and>
                 (length d \<noteq> 38 \<or> unat (d ! 0) \<noteq> tag \<or>
                  map ((!) d) [34..<38] \<noteq> take 4 (blake (map ((!) d) [0..<34])))) xs"
proof -
  from net obtain p where p: "prefix = JStr p" "p \<in> set validNetworks"
    using isValidNetwork_iff by blast
  show ?thesis
  proof (cases "xs = []")
    case True
    obtain tag where tag: "getDecimalByNetwork p = Some tag"
      using getDecimalByNetwork_valid [OF p(2)] by blast
    from validate_empty [OF p(2), of addrs b58 blake] norm True tag p(1)
    show ?thesis by auto
  next
    case False
    from validate_run [OF p(2) norm False, of b58 blake]
    obtain tag where tag: "getDecimalByNetwork p = Some tag"
      and run: "validateAddressesByNetwork b58 blake (JStr p) addrs =
       (case forEach_validate b58 blake tag xs [] [] of
          (calls, Inl e) \<Rightarrow> (calls, Inl e)
        | (calls, Inr invalid) \<Rightarrow>
            (calls, Inr \<lparr>success = (invalid = []),
                          errorMsg = (if invalid = [] then [] else ''Invalid addresses for network: '' @ p),
                          networkPrefix = JStr p, addresses = JArr xs,
                          invalidAddresses = invalid\<rparr>))"
      by blast
    obtain calls where fe: "forEach_validate b58 blake tag xs [] [] =
        (calls, Inr (filter (\<lambda>a. snd (validateAddress b58 blake tag a) = Inr True) xs))"
      using forEach_validate_ok [OF dec, of blake tag "[]" "[]"]
      by (cases "forEach_validate b58 blake tag xs [] []") auto
    show ?thesis
      using p(1) tag run fe invalid_filter [OF dec, of blake tag] by simp
  qed
qed

lemma validate_classifies_decoded_example:
  "truthy (isValidNetwork (JStr ''local'')) \<and>
   normalizeAddresses (JArr [sample_address, JStr ''short'']) =
     Inr (JArr [sample_address, JStr ''short'']) \<and>
   sample_decode sample_address \<noteq> None \<and> sample_decode (JStr ''short'') \<noteq> None \<and>
   (\<exists>calls r.
      validateAddressesByNetwork sample_decode sample_hash (JStr ''local'')
        (JArr [sample_address, JStr ''short'']) = (calls, Inr r) \<and>
      addresses r = JArr [sample_address, JStr ''short''] \<and>
      invalidAddresses r = [JStr ''short''])"
proof -
  have net: "truthy (isValidNetwork (JStr ''local''))"
    by (simp add: isValidNetwork_def validNetworks_def)
  have norm: "normalizeAddresses (JArr [sample_address, JStr ''short'']) =
     Inr (JArr [sample_address, JStr ''short''])"
    by (simp add: normalizeAddresses_def)
  have short: "sample_decode (JStr ''short'') = Some (map (\<lambda>c. of_nat (of_char c)) ''short'')"
    by (simp add: sample_decode_def)
  have dec: "\<forall>a\<in>set [sample_address, JStr ''short'']. sample_decode a \<noteq> None"
    by (simp add: sample_address_decodes short)
  have tag: "getDecimalByNetwork ''local'' = Some 48"
    by (simp add: getDecimalByNetwork_def networksDefaults_def)
  have neq: "sample_address \<noteq> JStr ''short''"
    by (simp add: sample_address_def)
  from validate_classifies_decoded [OF net norm dec, of sample_hash]
  show ?thesis
    using net norm tag neq
    by (auto simp: sample_address_decodes short sample_hash_def take_as_nths [symmetric])
qed

text \<open>
  When \<open>Base58.decode\<close> throws on one address of the list, nothing catches it: the
  exception leaves the \<open>forEach\<close> and the call, and no result is returned.
\<close>

lemma validateAddress_None:
  "b58 a = None \<Longrightarrow> validateAddress b58 blake tag a = ([Base58_decode a], Inl Base58Error)"
  by (simp add: validateAddress_def)

lemma forEach_validate_aborts:
  "\<exists>a\<in>set xs. b58 a = None \<Longrightarrow>
     snd (forEach_validate b58 blake tag xs calls bad) = Inl Base58Error"
proof (induction xs arbitrary: calls bad)
  case Nil
  then show ?case by simp
next
  case (Cons a xs)
  show ?case
  proof (cases "b58 a")
    case None
    then show ?thesis by (simp add: validateAddress_None)
  next
    case (Some d)
    with Cons.prems have rest: "\<exists>a\<in>set xs. b58 a = None" by auto
    obtain cs v where v: "validateAddress b58 blake tag a = (cs, Inr v)"
      using validateAddress_Some [of b58 a d blake tag, OF Some]
      by (cases "validateAddress b58 blake tag a") auto
    show ?thesis using Cons.IH [OF rest] v by simp
  qed
qed

section \<open>The claims about address validation\<close>

text \<open>
  C1.  The classification claimed for every address string holds when every address of
  the list decodes (\<open>validate_classifies_decoded\<close>).  It fails as soon as the list
  holds an address string that \<open>Base58.decode\<close> rejects: with a valid prefix the call
  then throws what the decoder threw and returns no result, so that address is neither
  put in \<open>invalidAddresses\<close> nor recorded in \<open>addresses\<close>, and the addresses
  validated before it are lost as well.  The comment above the loop says that an address
  that is not valid is added to \<open>invalidAddresses\<close>.
\<close>

theorem undecodable_address_aborts:
  assumes net: "truthy (isValidNetwork prefix)"
    and norm: "normalizeAddresses addrs = Inr (JArr xs)"
    and bad: "\<exists>a\<in>set xs. b58 a = None"
  shows "snd (validateAddressesByNetwork b58 blake prefix addrs) = Inl Base58Error"
proof -
  from net obtain p where p: "prefix = JStr p" "p \<in> set validNetworks"
    using isValidNetwork_iff by blast
  obtain tag where tag: "getDecimalByNetwork p = Some tag"
    using getDecimalByNetwork_valid [OF p(2)] by blast
  from bad have ne: "xs \<noteq> []" by auto
  from forEach_validate_aborts [OF bad, of blake tag "[]" "[]"]
    validate_run_tag [OF p(2) tag norm ne, of b58 blake] p(1)
  show ?thesis
    by (cases "forEach_validate b58 blake tag xs [] []") auto
qed

theorem undecodable_address_aborts_witness:
  "validateAddressesByNetwork sample_decode sample_hash (JStr ''local'') (JArr [JStr ''!bad'']) =
     ([Base58_decode (JStr ''!bad'')], Inl Base58Error) \<and>
   snd (validateAddressesByNetwork sample_decode sample_hash (JStr ''local'')
          (JArr [sample_address, JStr ''!bad''])) = Inl Base58Error"
proof -
  have net: "truthy (isValidNetwork (JStr ''local''))"
    by (simp add: isValidNetwork_def validNetworks_def)
  have none: "sample_decode (JStr ''!bad'') = None"
    by (simp add: sample_decode_def)
  have one: "validateAddressesByNetwork sample_decode sample_hash (JStr ''local'')
      (JArr [JStr ''!bad'']) = ([Base58_decode (JStr ''!bad'')], Inl Base58Error)"
    using net local_tag none
    by (simp add: validateAddressesByNetwork_def normalizeAddresses_def validateAddress_None)
  have two: "snd (validateAddressesByNetwork sample_decode sample_hash (JStr ''local'')
          (JArr [sample_address, JStr ''!bad''])) = Inl Base58Error"
    using undecodable_address_aborts [OF net, of "JArr [sample_address, JStr ''!bad'']"
        "[sample_address, JStr ''!bad'']" sample_decode sample_hash] none
    by (simp add: normalizeAddresses_def)
  from one two show ?thesis by blast
qed

text \<open>
  C2.  With a valid network prefix and a non-empty normalised list \<open>xs\<close>: every result
  the call returns has \<open>success\<close> true exactly when \<open>invalidAddresses\<close> is empty, and
  when it is not empty \<open>errorMsg\<close> is \<open>Invalid addresses for network: \<close> followed by
  the prefix; and the call does return a result when every address decodes.
\<close>

theorem validate_success_iff:
  assumes net: "truthy (isValidNetwork prefix)"
    and norm: "normalizeAddresses addrs = Inr (JArr xs)"
    and ne: "xs \<noteq> []"
  shows "(\<forall>calls r. validateAddressesByNetwork b58 blake prefix addrs = (calls, Inr r) \<longrightarrow>
            (success r \<longleftrightarrow> invalidAddresses r = []) \<and>
            (invalidAddresses r \<noteq> [] \<longrightarrow>
               (\<exists>p. prefix = JStr p \<and> errorMsg r = ''Invalid addresses for network: '' @ p))) \<and>
         ((\<forall>a\<in>set xs. b58 a \<noteq> None) \<longrightarrow>
            (\<exists>calls r. validateAddressesByNetwork b58 blake prefix addrs = (calls, Inr r)))"
proof -
  from net obtain p where p: "prefix = JStr p" "p \<in> set validNetworks"
    using isValidNetwork_iff by blast
  from validate_run [OF p(2) norm ne, of b58 blake]
  obtain tag where run: "validateAddressesByNetwork b58 blake (JStr p) addrs =
       (case forEach_validate b58 blake tag xs [] [] of
          (calls, Inl e) \<Rightarrow> (calls, Inl e)
        | (calls, Inr invalid) \<Rightarrow>
            (calls, Inr \<lparr>success = (invalid = []),
                          errorMsg = (if invalid = [] then [] else ''Invalid addresses for network: '' @ p),
                          networkPrefix = JStr p, addresses = JArr xs,
                          invalidAddresses = invalid\<rparr>))"
    by blast
  have first: "\<forall>calls r. validateAddressesByNetwork b58 blake prefix addrs = (calls, Inr r) \<longrightarrow>
            (success r \<longleftrightarrow> invalidAddresses r = []) \<and>
            (invalidAddresses r \<noteq> [] \<longrightarrow>
               (\<exists>p. prefix = JStr p \<and> errorMsg r = ''Invalid addresses for network: '' @ p))"
    using run p(1) by (auto split: prod.splits sum.splits)
  have second: "(\<forall>a\<in>set xs. b58 a \<noteq> None) \<longrightarrow>
            (\<exists>calls r. validateAddressesByNetwork b58 blake prefix addrs = (calls, Inr r))"
  proof
    assume "\<forall>a\<in>set xs. b58 a \<noteq> None"
    from forEach_validate_returns [OF this, of blake tag] run p(1)
    show "\<exists>calls r. validateAddressesByNetwork b58 blake prefix addrs = (calls, Inr r)"
      by auto
  qed
  from first second show ?thesis by blast
qed

theorem validate_success_iff_witness:
  "truthy (isValidNetwork (JStr ''local'')) \<and>
   normalizeAddresses (JArr [sample_address, JStr ''short'']) =
     Inr (JArr [sample_address, JStr ''short'']) \<and>
   (\<exists>calls r.
      validateAddressesByNetwork sample_decode sample_hash (JStr ''local'')
        (JArr [sample_address, JStr ''short'']) = (calls, Inr r) \<and>
      invalidAddresses r \<noteq> [] \<and> success r = (invalidAddresses r = []) \<and>
      errorMsg r = ''Invalid addresses for network: local'')"
proof -
  have net: "truthy (isValidNetwork (JStr ''local''))"
    by (simp add: isValidNetwork_def validNetworks_def)
  have norm: "normalizeAddresses (JArr [sample_address, JStr ''short'']) =
     Inr (JArr [sample_address, JStr ''short''])"
    by (simp add: normalizeAddresses_def)
  have short: "sample_decode (JStr ''short'') = Some (map (\<lambda>c. of_nat (of_char c)) ''short'')"
    by (simp add: sample_decode_def)
  have dec: "\<forall>a\<in>set [sample_address, JStr ''short'']. sample_decode a \<noteq> None"
    by (simp add: sample_address_decodes short)
  have bad: "snd (validateAddress sample_decode sample_hash 48 (JStr ''short'')) = Inr True"
    by (simp add: validateAddress_def short)
  from validate_array_decoded [OF local_valid local_tag _ dec, of sample_hash] bad
  obtain calls r where run: "validateAddressesByNetwork sample_decode sample_hash (JStr ''local'')
        (JArr [sample_address, JStr ''short'']) = (calls, Inr r)"
    and inv: "invalidAddresses r \<noteq> []"
    by auto
  from validate_success_iff [OF net norm, of sample_decode sample_hash] run inv
  have "success r = (invalidAddresses r = []) \<and>
      errorMsg r = ''Invalid addresses for network: local''"
    by auto
  with net norm run inv show ?thesis by blast
qed

text \<open>
  C3.  Let the address \<open>a\<close>, decoding to \<open>d\<close>, validate successfully on its own
  against the network \<open>p\<close>.  Change one byte \<open>i\<close> of its checksum (\<open>34 \<le> i < 38\<close>) to
  another value \<open>v\<close>, and let \<open>a'\<close> be an encoding of the changed bytes.  Then a call
  on any list that holds \<open>a'\<close> (its other addresses decoding) returns a result with
  \<open>a'\<close> among \<open>invalidAddresses\<close> and \<open>success\<close> false.
\<close>

theorem checksum_corruption_detected:
  assumes p: "p \<in> set validNetworks"
    and d: "b58 a = Some d"
    and ok: "validateAddressesByNetwork b58 blake (JStr p) (JArr [a]) = (calls, Inr r)"
    and succ: "success r"
    and i: "34 \<le> i" "i < 38"
    and v: "v \<noteq> d ! i"
    and d': "b58 a' = Some (d[i := v])"
    and rest: "\<forall>x\<in>set pre \<union> set post. b58 x \<noteq> None"
  shows "\<exists>calls' r'.
     validateAddressesByNetwork b58 blake (JStr p) (JArr (pre @ a' # post)) = (calls', Inr r') \<and>
     a' \<in> set (invalidAddresses r') \<and> \<not> success r'"
proof -
  obtain tag where tag: "getDecimalByNetwork p = Some tag"
    using getDecimalByNetwork_valid [OF p] by blast
  have "\<forall>x\<in>set [a]. b58 x \<noteq> None"
    using d by simp
  from validate_array_decoded [OF p tag _ this, of blake] ok succ
  have good: "snd (validateAddress b58 blake tag a) \<noteq> Inr True"
    by (auto split: if_splits)
  with validateAddress_Some [of b58 a d blake tag, OF d]
  have len: "length d = 38" and sum: "drop 34 d = take 4 (blake (take 34 d))"
    by auto
  have bad: "snd (validateAddress b58 blake tag a') = Inr True"
    using corrupt_checksum_invalid [of d blake i v b58 a' tag] len sum i v d' by blast
  have all: "\<forall>x\<in>set (pre @ a' # post). b58 x \<noteq> None"
    using rest d' by auto
  from validate_array_decoded [OF p tag _ all, of blake] bad
  show ?thesis by auto
qed

theorem checksum_corruption_detected_witness:
  "(\<exists>calls r. validateAddressesByNetwork sample_decode sample_hash (JStr ''local'')
       (JArr [sample_address]) = (calls, Inr r) \<and> success r) \<and>
   (\<exists>calls r. validateAddressesByNetwork sample_decode sample_hash (JStr ''local'')
       (JArr [JStr ''0aaaaaaaaaaaaaaaaaaaaaaaaaaaaawxyzzyxa'']) = (calls, Inr r) \<and>
       JStr ''0aaaaaaaaaaaaaaaaaaaaaaaaaaaaawxyzzyxa'' \<in> set (invalidAddresses r) \<and>
       \<not> success r)"
proof -
  from sample_run obtain calls r where
    run: "validateAddressesByNetwork sample_decode sample_hash (JStr ''local'')
       (JArr [sample_address]) = (calls, Inr r)" and s: "success r"
    by auto
  have v: "(97 :: byte) \<noteq>
      map (\<lambda>c. of_nat (of_char c)) ''0aaaaaaaaaaaaaaaaaaaaaaaaaaaaawxyzzyxw'' ! 37"
    by code_simp
  have d': "sample_decode (JStr ''0aaaaaaaaaaaaaaaaaaaaaaaaaaaaawxyzzyxa'') =
      Some ((map (\<lambda>c. of_nat (of_char c)) ''0aaaaaaaaaaaaaaaaaaaaaaaaaaaaawxyzzyxw'')[37 := 97])"
    by code_simp
  have rest: "\<forall>x\<in>set [] \<union> set []. sample_decode x \<noteq> None"
    by simp
  from checksum_corruption_detected [OF local_valid sample_address_decodes run s _ _ v d' rest]
  have "\<exists>calls r. validateAddressesByNetwork sample_decode sample_hash (JStr ''local'')
       (JArr [JStr ''0aaaaaaaaaaaaaaaaaaaaaaaaaaaaawxyzzyxa'']) = (calls, Inr r) \<and>
       JStr ''0aaaaaaaaaaaaaaaaaaaaaaaaaaaaawxyzzyxa'' \<in> set (invalidAddresses r) \<and>
       \<not> success r"
    by simp
  with run s show ?thesis by blast
qed

text \<open>
  C4.  For a structured object whose \<open>recipients\<close> is absent or an array of arrays and
  whose \<open>sender\<close> and \<open>addresses\<close> are absent or arrays, the normalised list is the
  change address (when present), the consolidation address (when present), the first
  entry of every recipient, every sender and every address, concatenated in this order
  with nothing removed.  In particular \<open>{changeAddress: A, sender: [B], addresses: [C]}\<close>
  with an address \<open>A\<close> (a non-empty string, or any other truthy value) normalises to
  \<open>[A, B, C]\<close>, and this is the \<open>addresses\<close> field of the result of validating that
  object against \<open>local\<close> when the three addresses decode.
\<close>

theorem structured_object_extracted:
  "((field kvs ''recipients'' = JArr (map JArr rcs) \<or>
       field kvs ''recipients'' = JUndefined \<and> rcs = []) \<and>
    (field kvs ''sender'' = JArr ss \<or> field kvs ''sender'' = JUndefined \<and> ss = []) \<and>
    (field kvs ''addresses'' = JArr as \<or> field kvs ''addresses'' = JUndefined \<and> as = []) \<longrightarrow>
    normalizeAddresses (JObj kvs) =
      Inr (JArr ((if truthy (field kvs ''changeAddress'') then [field kvs ''changeAddress''] else []) @
                 (if truthy (field kvs ''consolidationAdddress'')
                  then [field kvs ''consolidationAdddress''] else []) @
                 map (\<lambda>r. case r of [] \<Rightarrow> JUndefined | x # _ \<Rightarrow> x) rcs @ ss @ as))) \<and>
   (truthy A \<longrightarrow>
    normalizeAddresses
      (JObj [(''changeAddress'', A), (''sender'', JArr [B]), (''addresses'', JArr [C])]) =
      Inr (JArr [A, B, C])) \<and>
   (truthy A \<and> b58 A \<noteq> None \<and> b58 B \<noteq> None \<and> b58 C \<noteq> None \<longrightarrow>
    (\<exists>calls r.
       validateAddressesByNetwork b58 blake (JStr ''local'')
         (JObj [(''changeAddress'', A), (''sender'', JArr [B]), (''addresses'', JArr [C])]) =
         (calls, Inr r) \<and>
       addresses r = JArr [A, B, C]))"
proof -
  have general: "(field kvs ''recipients'' = JArr (map JArr rcs) \<or>
       field kvs ''recipients'' = JUndefined \<and> rcs = []) \<and>
    (field kvs ''sender'' = JArr ss \<or> field kvs ''sender'' = JUndefined \<and> ss = []) \<and>
    (field kvs ''addresses'' = JArr as \<or> field kvs ''addresses'' = JUndefined \<and> as = []) \<longrightarrow>
    normalizeAddresses (JObj kvs) =
      Inr (JArr ((if truthy (field kvs ''changeAddress'') then [field kvs ''changeAddress''] else []) @
                 (if truthy (field kvs ''consolidationAdddress'')
                  then [field kvs ''consolidationAdddress''] else []) @
                 map (\<lambda>r. case r of [] \<Rightarrow> JUndefined | x # _ \<Rightarrow> x) rcs @ ss @ as))"
    using extract_object [of kvs rcs ss as] by (simp add: normalizeAddresses_def)
  have abc: "truthy A \<Longrightarrow> normalizeAddresses
      (JObj [(''changeAddress'', A), (''sender'', JArr [B]), (''addresses'', JArr [C])]) =
      Inr (JArr [A, B, C])"
    using extract_object [of "[(''changeAddress'', A), (''sender'', JArr [B]), (''addresses'', JArr [C])]"
        "[]" "[B]" "[C]"]
    by (simp add: normalizeAddresses_def field_def)
  have run: "truthy A \<and> b58 A \<noteq> None \<and> b58 B \<noteq> None \<and> b58 C \<noteq> None \<longrightarrow>
    (\<exists>calls r.
       validateAddressesByNetwork b58 blake (JStr ''local'')
         (JObj [(''changeAddress'', A), (''sender'', JArr [B]), (''addresses'', JArr [C])]) =
         (calls, Inr r) \<and>
       addresses r = JArr [A, B, C])"
  proof
    assume h: "truthy A \<and> b58 A \<noteq> None \<and> b58 B \<noteq> None \<and> b58 C \<noteq> None"
    then have "\<forall>a\<in>set [A, B, C]. b58 a \<noteq> None" by simp
    from validate_records_addresses [OF local_valid abc this] h
    show "\<exists>calls r.
       validateAddressesByNetwork b58 blake (JStr ''local'')
         (JObj [(''changeAddress'', A), (''sender'', JArr [B]), (''addresses'', JArr [C])]) =
         (calls, Inr r) \<and>
       addresses r = JArr [A, B, C]" by blast
  qed
  from general abc run show ?thesis by blast
qed

theorem structured_object_extracted_witness:
  "truthy sample_address \<and>
   normalizeAddresses
      (JObj [(''changeAddress'', sample_address), (''sender'', JArr [sample_address]),
             (''addresses'', JArr [sample_address])]) =
      Inr (JArr [sample_address, sample_address, sample_address]) \<and>
   normalizeAddresses
      (JObj [(''propositionType'', JStr ''PublicKeyCurve25519''),
             (''changeAddress'', JStr ''A''), (''consolidationAdddress'', JStr ''B''),
             (''recipients'', JArr [JArr [JStr ''C'', JNum 10]]),
             (''sender'', JArr [JStr ''A'']), (''addresses'', JArr [JStr ''B'']),
             (''fee'', JNum 1), (''data'', JStr '''')]) =
      Inr (JArr [JStr ''A'', JStr ''B'', JStr ''C'', JStr ''A'', JStr ''B'']) \<and>
   (\<exists>calls r.
       validateAddressesByNetwork sample_decode sample_hash (JStr ''local'')
         (JObj [(''changeAddress'', sample_address), (''sender'', JArr [sample_address]),
                (''addresses'', JArr [sample_address])]) = (calls, Inr r) \<and>
       addresses r = JArr [sample_address, sample_address, sample_address])"
proof -
  have t: "truthy sample_address"
    by (simp add: sample_address_def)
  have d: "sample_decode sample_address \<noteq> None"
    by (simp add: sample_address_decodes)
  from structured_object_extracted [of
      "[(''propositionType'', JStr ''PublicKeyCurve25519''),
             (''changeAddress'', JStr ''A''), (''consolidationAdddress'', JStr ''B''),
             (''recipients'', JArr [JArr [JStr ''C'', JNum 10]]),
             (''sender'', JArr [JStr ''A'']), (''addresses'', JArr [JStr ''B'']),
             (''fee'', JNum 1), (''data'', JStr '''')]"
      "[[JStr ''C'', JNum 10]]" "[JStr ''A'']" "[JStr ''B'']"
      sample_address sample_address sample_address sample_decode sample_hash] t d
  show ?thesis by (simp add: field_def)
qed

text \<open>
  C5.  For a prefix that is not one of the recognised names, and any \<open>addresses\<close>
  argument, the call returns the result with \<open>success\<close> false and \<open>errorMsg\<close>
  \<open>Invalid network provided\<close>, and its record of library calls is empty: nothing was
  decoded and nothing hashed, whatever the decoder and the hash are.
\<close>

theorem invalid_network_rejected:
  "prefix \<notin> set (map JStr validNetworks) \<Longrightarrow>
     validateAddressesByNetwork b58 blake prefix addrs =
       ([], Inr \<lparr>success = False, errorMsg = ''Invalid network provided'',
                 networkPrefix = prefix, addresses = JArr [], invalidAddresses = []\<rparr>)"
  using isValidNetwork_iff [of prefix]
  by (auto simp: validateAddressesByNetwork_def)

theorem invalid_network_rejected_witness:
  "JStr ''not_a_network'' \<notin> set (map JStr validNetworks) \<and>
   validateAddressesByNetwork sample_decode sample_hash (JStr ''not_a_network'')
       (JArr [sample_address]) =
     ([], Inr \<lparr>success = False, errorMsg = ''Invalid network provided'',
               networkPrefix = JStr ''not_a_network'', addresses = JArr [],
               invalidAddresses = []\<rparr>)"
proof -
  have h: "JStr ''not_a_network'' \<notin> set (map JStr validNetworks)"
    by (simp add: validNetworks_def)
  from invalid_network_rejected [OF h, of sample_decode sample_hash "JArr [sample_address]"] h
  show ?thesis by blast
qed

text \<open>
  C9, as stated, fails for the empty string: it is a bare string, the prefix \<open>local\<close>
  is valid, and the call returns a result, because \<open>if (!addresses)\<close> catches the
  empty string before the normalisation.
\<close>

theorem bare_empty_string_returns:
  "validateAddressesByNetwork sample_decode sample_hash (JStr ''local'') (JStr '''') =
     ([], Inr \<lparr>success = False, errorMsg = ''No addresses provided'',
               networkPrefix = JStr ''local'', addresses = JArr [], invalidAddresses = []\<rparr>)"
  by (simp add: validateAddressesByNetwork_def isValidNetwork_def validNetworks_def)

text \<open>
  C9, amended.  If the \<open>addresses\<close> argument is a bare non-empty string and the
  network prefix is valid, the call returns no result: \<open>extractAddressesFromObj\<close>
  returns the string unchanged, the string passes the emptiness check, and the
  \<open>forEach\<close> on it throws a \<open>TypeError\<close>.
\<close>

theorem bare_string_throws:
  assumes "truthy (isValidNetwork prefix)" and "s \<noteq> []"
  shows "extractAddressesFromObj (JStr s) = Inr (JStr s) \<and>
         truthy (JStr s) \<and> \<not> length_lt1 (JStr s) \<and>
         validateAddressesByNetwork b58 blake prefix (JStr s) = ([], Inl TypeError)"
proof -
  from assms(1) obtain p where p: "prefix = JStr p" "p \<in> set validNetworks"
    using isValidNetwork_iff by blast
  obtain tag where tag: "getDecimalByNetwork p = Some tag"
    using getDecimalByNetwork_valid [OF p(2)] by blast
  have e: "extractAddressesFromObj (JStr s) = Inr (JStr s)"
    by (simp add: extractAddressesFromObj_def)
  show ?thesis
    using assms p(1) tag e
    by (cases s) (simp_all add: validateAddressesByNetwork_def normalizeAddresses_def)
qed

theorem bare_string_throws_witness:
  "truthy (isValidNetwork (JStr ''local'')) \<and>
   extractAddressesFromObj (JStr ''86tS2ExvjGEp'') = Inr (JStr ''86tS2ExvjGEp'') \<and>
   validateAddressesByNetwork sample_decode sample_hash (JStr ''local'') (JStr ''86tS2ExvjGEp'') =
     ([], Inl TypeError)"
proof -
  have net: "truthy (isValidNetwork (JStr ''local''))"
    by (simp add: isValidNetwork_def validNetworks_def)
  from bare_string_throws [OF net, of "''86tS2ExvjGEp''" sample_decode sample_hash] net
  show ?thesis by simp
qed

text \<open>
  C10.  Every result that \<open>validateAddressesByNetwork\<close> returns, on whichever path,
  has \<open>success\<close> true if and only if its \<open>errorMsg\<close> is the empty string.
\<close>

theorem result_invariant:
  "validateAddressesByNetwork b58 blake prefix addrs = (calls, Inr r) \<Longrightarrow>
     success r \<longleftrightarrow> errorMsg r = []"
  by (auto simp: validateAddressesByNetwork_def Let_def
      split: if_splits jsval.splits option.splits sum.splits prod.splits)

theorem result_invariant_witness:
  "validateAddressesByNetwork sample_decode sample_hash (JStr ''not_a_network'') (JArr []) =
     ([], Inr \<lparr>success = False, errorMsg = ''Invalid network provided'',
               networkPrefix = JStr ''not_a_network'', addresses = JArr [],
               invalidAddresses = []\<rparr>) \<and>
   (success \<lparr>success = False, errorMsg = ''Invalid network provided'',
               networkPrefix = JStr ''not_a_network'', addresses = JArr [],
               invalidAddresses = []\<rparr> \<longleftrightarrow>
    errorMsg \<lparr>success = False, errorMsg = ''Invalid network provided'',
               networkPrefix = JStr ''not_a_network'', addresses = JArr [],
               invalidAddresses = []\<rparr> = []) \<and>
   (\<exists>calls r. validateAddressesByNetwork sample_decode sample_hash (JStr ''local'')
       (JArr [sample_address]) = (calls, Inr r) \<and> success r \<and> errorMsg r = [])"
proof -
  have one: "validateAddressesByNetwork sample_decode sample_hash (JStr ''not_a_network'') (JArr []) =
     ([], Inr \<lparr>success = False, errorMsg = ''Invalid network provided'',
               networkPrefix = JStr ''not_a_network'', addresses = JArr [],
               invalidAddresses = []\<rparr>)"
    by (simp add: validateAddressesByNetwork_def isValidNetwork_def validNetworks_def)
  from sample_run obtain calls r where
    two: "validateAddressesByNetwork sample_decode sample_hash (JStr ''local'')
       (JArr [sample_address]) = (calls, Inr r)" and s: "success r"
    by auto
  from result_invariant [OF one] result_invariant [OF two] one two s
  show ?thesis by blast
qed

section \<open>The claims about the KeyManager\<close>

text \<open>
  C6.  For a construction input that is neither a non-empty string nor an object with a
  string-valued \<open>password\<close> field, construction fails with \<open>InvalidPassword\<close>, and no
  cryptographic operation has been performed: the record of operations is empty.
\<close>

theorem constructor_rejects_bad_password:
  assumes "\<not> (\<exists>s. params = JStr s \<and> s \<noteq> [])"
    and "\<not> (\<exists>kvs s. params = JObj kvs \<and> field kvs ''password'' = JStr s)"
  shows "new_KeyManager derive ident params = ([], Inl InvalidPassword)"
proof -
  have "password_of params = None"
    using assms by (cases params) (auto split: jsval.splits)
  then show ?thesis by (simp add: new_KeyManager_def)
qed

theorem constructor_rejects_bad_password_witness:
  "new_KeyManager (\<lambda>pw. ([], [])) (\<lambda>pk. []) (JNum 123) = ([], Inl InvalidPassword) \<and>
   new_KeyManager (\<lambda>pw. ([], [])) (\<lambda>pk. []) (JArr []) = ([], Inl InvalidPassword) \<and>
   new_KeyManager (\<lambda>pw. ([], [])) (\<lambda>pk. []) (JObj []) = ([], Inl InvalidPassword) \<and>
   new_KeyManager (\<lambda>pw. ([], [])) (\<lambda>pk. []) JUndefined = ([], Inl InvalidPassword) \<and>
   new_KeyManager (\<lambda>pw. ([], [])) (\<lambda>pk. []) (JStr []) = ([], Inl InvalidPassword) \<and>
   new_KeyManager (\<lambda>pw. ([], [])) (\<lambda>pk. []) (JObj [(''password'', JNum 123)]) =
     ([], Inl InvalidPassword) \<and>
   new_KeyManager (\<lambda>pw. ([], [])) (\<lambda>pk. []) (JObj [(''invalidPasswordKey'', JStr ''invalidKey'')]) =
     ([], Inl InvalidPassword)"
proof -
  have a: "\<not> (\<exists>kvs s. JObj [(''password'', JNum 123)] = JObj kvs \<and> field kvs ''password'' = JStr s)"
    by (simp add: field_def)
  have b: "\<not> (\<exists>kvs s. JObj [(''invalidPasswordKey'', JStr ''invalidKey'')] = JObj kvs \<and>
      field kvs ''password'' = JStr s)"
    by (simp add: field_def)
  have c: "\<not> (\<exists>kvs s. JObj [] = JObj kvs \<and> field kvs ''password'' = JStr s)"
    by (simp add: field_def)
  show ?thesis
    using constructor_rejects_bad_password [of "JNum 123"]
      constructor_rejects_bad_password [of "JArr []"]
      constructor_rejects_bad_password [of "JObj []", OF _ c]
      constructor_rejects_bad_password [of JUndefined]
      constructor_rejects_bad_password [of "JStr []"]
      constructor_rejects_bad_password [of "JObj [(''password'', JNum 123)]", OF _ a]
      constructor_rejects_bad_password [of "JObj [(''invalidPasswordKey'', JStr ''invalidKey'')]", OF _ b]
    by simp
qed

text \<open>
  C7.  For a locked KeyManager, \<open>unlockKey\<close> with anything but the construction
  password fails with \<open>InvalidPassword\<close> and leaves the KeyManager as it was, field
  for field; in particular it is still locked.
\<close>

theorem unlockKey_wrong_password:
  assumes "isLocked km" and "pw \<noteq> JStr (password km)"
  shows "unlockKey km pw = (Inl InvalidPassword, km) \<and> isLocked (snd (unlockKey km pw))"
  using assms by (simp add: unlockKey_def)

theorem unlockKey_wrong_password_witness:
  "new_KeyManager (\<lambda>pw. ([], [])) (\<lambda>pk. []) (JStr ''password_test'') =
     ([DeriveKeyPair ''password_test''],
      Inr \<lparr>password = ''password_test'', keyPair = ([], []), publicKeyId = [],
           isLocked = False\<rparr>) \<and>
   isLocked (lockKey \<lparr>password = ''password_test'', keyPair = ([], []), publicKeyId = [],
                       isLocked = False\<rparr>) \<and>
   unlockKey (lockKey \<lparr>password = ''password_test'', keyPair = ([], []), publicKeyId = [],
                        isLocked = False\<rparr>) (JStr ''this_is_an_invalid_password'') =
     (Inl InvalidPassword,
      \<lparr>password = ''password_test'', keyPair = ([], []), publicKeyId = [], isLocked = True\<rparr>) \<and>
   unlockKey (lockKey \<lparr>password = ''password_test'', keyPair = ([], []), publicKeyId = [],
                        isLocked = False\<rparr>) JUndefined =
     (Inl InvalidPassword,
      \<lparr>password = ''password_test'', keyPair = ([], []), publicKeyId = [], isLocked = True\<rparr>)"
  using unlockKey_wrong_password [of "lockKey \<lparr>password = ''password_test'', keyPair = ([], []),
      publicKeyId = [], isLocked = False\<rparr>" "JStr ''this_is_an_invalid_password''"]
    unlockKey_wrong_password [of "lockKey \<lparr>password = ''password_test'', keyPair = ([], []),
      publicKeyId = [], isLocked = False\<rparr>" JUndefined]
  by (simp add: lockKey_def new_KeyManager_def)

text \<open>
  C8.  \<open>sign\<close> fails with the one error \<open>LockedError\<close>, and signs nothing, in each of
  the three cases: the KeyManager is locked (whatever the message); it is unlocked and
  the message is the empty string; it is unlocked and the message is not a string.
\<close>

theorem sign_one_error:
  "(isLocked km \<longrightarrow> sign signature km message = ([], Inl LockedError)) \<and>
   (\<not> isLocked km \<longrightarrow> sign signature km (JStr []) = ([], Inl LockedError)) \<and>
   (\<not> isLocked km \<and> (\<forall>m. message \<noteq> JStr m) \<longrightarrow>
      sign signature km message = ([], Inl LockedError))"
  by (cases message) (simp_all add: sign_def)

theorem sign_one_error_witness:
  "sign (\<lambda>kp m. replicate 64 0)
     \<lparr>password = ''password_test'', keyPair = ([], []), publicKeyId = [], isLocked = True\<rparr>
     (JStr ''topl_signature'') = ([], Inl LockedError) \<and>
   sign (\<lambda>kp m. replicate 64 0)
     \<lparr>password = ''password_test'', keyPair = ([], []), publicKeyId = [], isLocked = False\<rparr>
     (JStr []) = ([], Inl LockedError) \<and>
   sign (\<lambda>kp m. replicate 64 0)
     \<lparr>password = ''password_test'', keyPair = ([], []), publicKeyId = [], isLocked = False\<rparr>
     (JArr []) = ([], Inl LockedError)"
  using sign_one_error [of "\<lparr>password = ''password_test'', keyPair = ([], []), publicKeyId = [],
        isLocked = True\<rparr>" "\<lambda>kp m. replicate 64 0" "JStr ''topl_signature''"]
    sign_one_error [of "\<lparr>password = ''password_test'', keyPair = ([], []), publicKeyId = [],
        isLocked = False\<rparr>" "\<lambda>kp m. replicate 64 0" "JArr []"]
  by simp

end
